theory Spec2Isabelle
  imports Main "HOL-Library.Word"
begin

section \<open>The container analyzer of \<^verbatim>\<open>src/main.py\<close>\<close>

text \<open>
  The program is a Python script that detects whether a file is a ZIP archive or an OLE
  compound file, lists the embedded items and writes each of them to a flat output
  directory. Parsing is done by \<^verbatim>\<open>zipfile\<close> and \<^verbatim>\<open>olefile\<close>; what
  these libraries, \<^verbatim>\<open>mimetypes\<close> and the operating system answer is the environment
  of the model (the record \<open>env\<close>), and the script's own logic is translated function by
  function. What the script changes is the world: the files it writes and the records it logs.
  Paths follow \<^verbatim>\<open>posixpath\<close>, the \<^verbatim>\<open>os.path\<close> of a POSIX system.
\<close>

subsection \<open>Values\<close>

type_synonym bytes = "8 word list"

text \<open>An exception caught by \<^verbatim>\<open>except zipfile.BadZipFile\<close> or by
  \<^verbatim>\<open>except Exception\<close>, with its message.\<close>

datatype exn = BadZipFile string | OSError string | ValueError string | Exception string

fun is_BadZipFile :: "exn \<Rightarrow> bool" where
  "is_BadZipFile (BadZipFile s) = True"
| "is_BadZipFile e = False"

text \<open>What a Python function hands back: \<^verbatim>\<open>None\<close> or a boolean.\<close>

datatype pyval = PyNone | PyBool bool

subsection \<open>String and path functions of the Python library\<close>

text \<open>\<^verbatim>\<open>s.rfind(c)\<close>: the highest index of \<open>c\<close> in \<open>s\<close>, or \<open>-1\<close>.\<close>

fun str_rfind :: "string \<Rightarrow> char \<Rightarrow> int" where
  "str_rfind [] c = - 1"
| "str_rfind (x # xs) c =
     (let r = str_rfind xs c
      in if 0 \<le> r then r + 1 else if x = c then 0 else - 1)"

text \<open>\<^verbatim>\<open>posixpath.basename\<close>: \<^verbatim>\<open>i = p.rfind('/') + 1; return p[i:]\<close>.\<close>

definition os_path_basename :: "string \<Rightarrow> string" where
  "os_path_basename p = (let i = str_rfind p CHR ''/'' + 1 in drop (nat i) p)"

text \<open>\<^verbatim>\<open>posixpath.join(a, b)\<close> with one component \<open>b\<close>: an absolute \<open>b\<close>
  replaces \<open>a\<close>; otherwise \<open>b\<close> is appended, after a separator unless \<open>a\<close> is empty or
  ends with one.\<close>

definition os_path_join :: "string \<Rightarrow> string \<Rightarrow> string" where
  "os_path_join a b =
     (if (case b of [] \<Rightarrow> False | c # cs \<Rightarrow> c = CHR ''/'') then b
      else if a = [] \<or> last a = CHR ''/'' then a @ b
      else a @ ''/'' @ b)"

text \<open>\<^verbatim>\<open>sep.join(xs)\<close>.\<close>

fun str_join :: "string \<Rightarrow> string list \<Rightarrow> string" where
  "str_join sep [] = []"
| "str_join sep [x] = x"
| "str_join sep (x # y # ys) = x @ sep @ str_join sep (y # ys)"

text \<open>\<^verbatim>\<open>s.replace(old, new)\<close> for one-character \<open>old\<close> and \<open>new\<close>.\<close>

definition str_replace :: "string \<Rightarrow> char \<Rightarrow> char \<Rightarrow> string" where
  "str_replace s old new = map (\<lambda>c. if c = old then new else c) s"

subsection \<open>Log records\<close>

datatype level = DEBUG | INFO | WARNING | ERROR

text \<open>One constructor per format string of the script, with the values it interpolates.\<close>

datatype message =
    Verbose_enabled
  | File_not_found string
  | Processing_zip string
  | Found_file string nat string
  | Extracted string string
  | Error_extracting string exn
  | Not_valid_zip string
  | Error_processing string exn
  | Not_valid_ole string
  | Processing_ole string
  | Found_stream string nat string
  | Error_extracting_stream string exn
  | Unsupported_format string
  | Detected_zip_header
  | Could_not_identify string
  | Error_probing exn

type_synonym log_record = "level \<times> message"

subsection \<open>The world and the environment\<close>

text \<open>The world the script acts on: the regular files by path, and the log written so far.\<close>

record world =
  files :: "string \<rightharpoonup> bytes"
  logs :: "log_record list"

text \<open>One member of a ZIP archive as \<^verbatim>\<open>infolist()\<close> gives it: the name and the size
  its directory record declares, and what reading it yields: \<open>Inl e\<close> when
  \<^verbatim>\<open>zip_ref.open(file_info)\<close> raises, \<open>Inr (Inl e)\<close> when it opens and
  \<^verbatim>\<open>source.read()\<close> raises, \<open>Inr (Inr d)\<close> for the stored bytes.\<close>

record zip_member =
  filename :: string
  file_size :: nat
  member_open :: "exn + (exn + bytes)"

text \<open>An open compound file: \<^verbatim>\<open>listdir()\<close> gives the stream names, each a list of
  name components; \<^verbatim>\<open>openstream(path).read()\<close> looks a stream up by its joined path.\<close>

record ole_file =
  listdir :: "exn + string list list"
  openstream :: "string \<Rightarrow> exn + bytes"

text \<open>The answers of the libraries and of the operating system. \<open>mkdir\<close> and
  \<open>open_denied\<close> give the error when the call fails; \<open>write_quota\<close> gives, for a path,
  the number of bytes after which a write to it fails. \<open>guess_type\<close> is the first component
  of \<^verbatim>\<open>mimetypes.guess_type\<close>, or the exception it raises: it parses the name as a
  URL and raises \<^verbatim>\<open>ValueError\<close> on a name such as \<^verbatim>\<open>a://[x\<close>.\<close>

record env =
  path_exists :: "string \<Rightarrow> bool"
  mkdir :: "string \<Rightarrow> exn option"
  is_zipfile :: "string \<Rightarrow> bool"
  isOleFile :: "string \<Rightarrow> exn + bool"
  ZipFile :: "string \<Rightarrow> exn + zip_member list"
  OleFileIO :: "string \<Rightarrow> exn + ole_file"
  read4 :: "string \<Rightarrow> exn + bytes"
  guess_type :: "string \<Rightarrow> exn + string option"
  open_denied :: "string \<Rightarrow> exn option"
  write_quota :: "string \<Rightarrow> nat option"

text \<open>The command line after \<^verbatim>\<open>setup_argparse\<close>.\<close>

record cmdline =
  arg_filepath :: string
  arg_output :: string
  arg_list :: bool
  arg_verbose :: bool

subsection \<open>Logging and file output\<close>

definition logging :: "level \<Rightarrow> message \<Rightarrow> world \<Rightarrow> world" where
  "logging l m w = w\<lparr>logs := logs w @ [(l, m)]\<rparr>"

text \<open>\<^verbatim>\<open>open(path, 'wb')\<close>: a path whose last segment is empty, \<^verbatim>\<open>.\<close> or
  \<^verbatim>\<open>..\<close> names a directory and cannot be opened for writing; the system may refuse
  any other path; otherwise the file is created or truncated, whether it existed or not.\<close>

definition open_wb :: "env \<Rightarrow> string \<Rightarrow> world \<Rightarrow> exn option \<times> world" where
  "open_wb E path w =
     (let seg = os_path_basename path
      in if seg = [] \<or> seg = ''.'' \<or> seg = ''..'' then (Some (OSError ''Is a directory''), w)
         else (case open_denied E path of
                 Some e \<Rightarrow> (Some e, w)
               | None \<Rightarrow> (None, w\<lparr>files := (files w)(path \<mapsto> [])\<rparr>)))"

text \<open>\<^verbatim>\<open>target.write(data)\<close> and the close of the file: all of \<open>data\<close>, or the part
  that fits with an error.\<close>

definition file_write :: "env \<Rightarrow> string \<Rightarrow> bytes \<Rightarrow> world \<Rightarrow> exn option \<times> world" where
  "file_write E path data w =
     (case write_quota E path of
        None \<Rightarrow> (None, w\<lparr>files := (files w)(path \<mapsto> data)\<rparr>)
      | Some n \<Rightarrow>
          if length data \<le> n then (None, w\<lparr>files := (files w)(path \<mapsto> data)\<rparr>)
          else (Some (OSError ''No space left on device''),
                w\<lparr>files := (files w)(path \<mapsto> take n data)\<rparr>))"

text \<open>\<^verbatim>\<open>mimetypes.guess_type(name)[0] or "application/octet-stream"\<close>: the
  exception of \<^verbatim>\<open>guess_type\<close>, or the media type.\<close>

definition file_type_of :: "env \<Rightarrow> string \<Rightarrow> exn + string" where
  "file_type_of E name =
     (case guess_type E name of
        Inl e \<Rightarrow> Inl e
      | Inr None \<Rightarrow> Inr ''application/octet-stream''
      | Inr (Some t) \<Rightarrow> Inr (if t = [] then ''application/octet-stream'' else t))"

subsection \<open>\<^verbatim>\<open>extract_zip\<close>\<close>

text \<open>Lines 42 and 43: the member is opened, then the destination, then the member is read
  and written. The result is the exception that leaves the \<^verbatim>\<open>with\<close> block, if any.\<close>

definition zip_copy_member :: "env \<Rightarrow> string \<Rightarrow> zip_member \<Rightarrow> world \<Rightarrow> exn option \<times> world" where
  "zip_copy_member E output_path m w =
     (case member_open m of
        Inl e \<Rightarrow> (Some e, w)
      | Inr source \<Rightarrow>
          (case open_wb E output_path w of
             (Some e, w1) \<Rightarrow> (Some e, w1)
           | (None, w1) \<Rightarrow>
               (case source of
                  Inl e \<Rightarrow> (Some e, w1)
                | Inr data \<Rightarrow> file_write E output_path data w1)))"

text \<open>The body of the loop, lines 28 to 46. The call of \<^verbatim>\<open>guess_type\<close> at line 30
  stands outside the inner \<^verbatim>\<open>try\<close>: its exception leaves the body, before anything
  is logged for the member. The result is that exception, if any; the exceptions of lines 42
  and 43 are caught at line 45.\<close>

definition extract_zip_entry ::
    "env \<Rightarrow> string \<Rightarrow> bool \<Rightarrow> zip_member \<Rightarrow> world \<Rightarrow> exn option \<times> world" where
  "extract_zip_entry E output_dir list_only m w =
     (let name = filename m;
          size = file_size m
      in case file_type_of E name of
           Inl e \<Rightarrow> (Some e, w)
         | Inr file_type \<Rightarrow>
             (let w1 = logging INFO (Found_file name size file_type) w
              in if list_only then (None, w1)
                 else
                   (let safe_filename = os_path_basename name;
                        output_path = os_path_join output_dir safe_filename
                    in case zip_copy_member E output_path m w1 of
                         (None, w2) \<Rightarrow> (None, logging INFO (Extracted name output_path) w2)
                       | (Some e, w2) \<Rightarrow> (None, logging ERROR (Error_extracting name e) w2))))"

text \<open>The loop of line 27: an exception that leaves the body ends it.\<close>

fun extract_zip_loop ::
    "env \<Rightarrow> string \<Rightarrow> bool \<Rightarrow> zip_member list \<Rightarrow> world \<Rightarrow> exn option \<times> world" where
  "extract_zip_loop E output_dir list_only [] w = (None, w)"
| "extract_zip_loop E output_dir list_only (m # ms) w =
     (case extract_zip_entry E output_dir list_only m w of
        (Some e, w1) \<Rightarrow> (Some e, w1)
      | (None, w1) \<Rightarrow> extract_zip_loop E output_dir list_only ms w1)"

text \<open>The handlers of lines 48 to 53, for an exception of \<^verbatim>\<open>ZipFile\<close> or of the
  loop.\<close>

definition zip_failure :: "string \<Rightarrow> exn \<Rightarrow> world \<Rightarrow> bool \<times> world" where
  "zip_failure filepath e w =
     (if is_BadZipFile e then (False, logging ERROR (Not_valid_zip filepath) w)
      else (False, logging ERROR (Error_processing filepath e) w))"

definition extract_zip :: "env \<Rightarrow> string \<Rightarrow> string \<Rightarrow> bool \<Rightarrow> world \<Rightarrow> bool \<times> world" where
  "extract_zip E filepath output_dir list_only w =
     (case ZipFile E filepath of
        Inl e \<Rightarrow> zip_failure filepath e w
      | Inr members \<Rightarrow>
          (case extract_zip_loop E output_dir list_only members
                  (logging INFO (Processing_zip filepath) w) of
             (Some e, w1) \<Rightarrow> zip_failure filepath e w1
           | (None, w1) \<Rightarrow> (True, w1)))"

subsection \<open>\<^verbatim>\<open>extract_ole\<close>\<close>

text \<open>Lines 83 and 84.\<close>

definition write_stream :: "env \<Rightarrow> string \<Rightarrow> bytes \<Rightarrow> world \<Rightarrow> exn option \<times> world" where
  "write_stream E output_path stream_data w =
     (case open_wb E output_path w of
        (Some e, w1) \<Rightarrow> (Some e, w1)
      | (None, w1) \<Rightarrow> file_write E output_path stream_data w1)"

text \<open>The body of the loop, lines 68 to 88. \<^verbatim>\<open>if stream_name:\<close> tests the list of
  name components: it is false for the empty list only. The call of
  \<^verbatim>\<open>guess_type\<close> at line 73 stands inside the \<^verbatim>\<open>try\<close>: its exception is
  caught at line 87, like those of the read and of the write.\<close>

definition extract_ole_stream ::
    "env \<Rightarrow> string \<Rightarrow> bool \<Rightarrow> ole_file \<Rightarrow> string list \<Rightarrow> world \<Rightarrow> world" where
  "extract_ole_stream E output_dir list_only ole stream_name w =
     (if stream_name \<noteq> [] then
        (let full_stream_path = str_join ''/'' stream_name
         in case openstream ole full_stream_path of
              Inl e \<Rightarrow> logging ERROR (Error_extracting_stream full_stream_path e) w
            | Inr stream_data \<Rightarrow>
                (let stream_size = length stream_data
                 in case file_type_of E full_stream_path of
                      Inl e \<Rightarrow> logging ERROR (Error_extracting_stream full_stream_path e) w
                    | Inr file_type \<Rightarrow>
                        (let w1 = logging INFO
                                    (Found_stream full_stream_path stream_size file_type) w
                         in if list_only then w1
                            else
                              (let safe_filename =
                                     os_path_basename
                                       (str_replace full_stream_path CHR ''/'' CHR ''_'');
                                   output_path = os_path_join output_dir safe_filename
                               in case write_stream E output_path stream_data w1 of
                                    (None, w2) \<Rightarrow>
                                      logging INFO (Extracted full_stream_path output_path) w2
                                  | (Some e, w2) \<Rightarrow>
                                      logging ERROR
                                        (Error_extracting_stream full_stream_path e) w2))))
      else w)"

fun extract_ole_loop ::
    "env \<Rightarrow> string \<Rightarrow> bool \<Rightarrow> ole_file \<Rightarrow> string list list \<Rightarrow> world \<Rightarrow> world" where
  "extract_ole_loop E output_dir list_only ole [] w = w"
| "extract_ole_loop E output_dir list_only ole (n # ns) w =
     extract_ole_loop E output_dir list_only ole ns
       (extract_ole_stream E output_dir list_only ole n w)"

definition extract_ole :: "env \<Rightarrow> string \<Rightarrow> string \<Rightarrow> bool \<Rightarrow> world \<Rightarrow> bool \<times> world" where
  "extract_ole E filepath output_dir list_only w =
     (case isOleFile E filepath of
        Inl e \<Rightarrow> (False, logging ERROR (Error_processing filepath e) w)
      | Inr False \<Rightarrow> (False, logging ERROR (Not_valid_ole filepath) w)
      | Inr True \<Rightarrow>
          (case OleFileIO E filepath of
             Inl e \<Rightarrow> (False, logging ERROR (Error_processing filepath e) w)
           | Inr ole \<Rightarrow>
               (let w1 = logging INFO (Processing_ole filepath) w
                in case listdir ole of
                     Inl e \<Rightarrow> (False, logging ERROR (Error_processing filepath e) w1)
                   | Inr names \<Rightarrow>
                       (True, extract_ole_loop E output_dir list_only ole names w1))))"

subsection \<open>\<^verbatim>\<open>main\<close>\<close>

text \<open>The ZIP magic \<^verbatim>\<open>b'PK\x03\x04'\<close>.\<close>

definition zip_magic :: bytes where
  "zip_magic = [0x50, 0x4B, 0x03, 0x04]"

text \<open>\<open>Inl e\<close> is an exception that leaves \<^verbatim>\<open>main\<close> uncaught; \<open>Inr v\<close> is the value it
  returns. The results of \<^verbatim>\<open>extract_zip\<close> and \<^verbatim>\<open>extract_ole\<close> are not used.\<close>

definition main :: "env \<Rightarrow> cmdline \<Rightarrow> world \<Rightarrow> (exn + pyval) \<times> world" where
  "main E a w =
     (let w0 = (if arg_verbose a then logging DEBUG Verbose_enabled w else w);
          filepath = arg_filepath a;
          output_dir = arg_output a;
          list_only = arg_list a
      in if \<not> path_exists E filepath then
           (Inr PyNone, logging ERROR (File_not_found filepath) w0)
         else
           (case mkdir E output_dir of
              Some e \<Rightarrow> (Inl e, w0)
            | None \<Rightarrow>
                if is_zipfile E filepath then
                  (Inr PyNone, snd (extract_zip E filepath output_dir list_only w0))
                else
                  (case isOleFile E filepath of
                     Inl e \<Rightarrow> (Inl e, w0)
                   | Inr True \<Rightarrow>
                       (Inr PyNone, snd (extract_ole E filepath output_dir list_only w0))
                   | Inr False \<Rightarrow>
                       (let w1 = logging WARNING (Unsupported_format filepath) w0
                        in case read4 E filepath of
                             Inl e \<Rightarrow> (Inr PyNone, logging ERROR (Error_probing e) w1)
                           | Inr file_header \<Rightarrow>
                               if file_header = zip_magic then
                                 (Inr PyNone,
                                  snd (extract_zip E filepath output_dir list_only
                                         (logging INFO Detected_zip_header w1)))
                               else
                                 (Inr PyNone,
                                  logging ERROR (Could_not_identify filepath) w1)))))"

subsection \<open>Notions used to state the properties\<close>

text \<open>The world before anything is written or logged, and a world followed by what a run
  adds to it: the later files override, the later records follow.\<close>

definition empty_world :: world where
  "empty_world = \<lparr>files = Map.empty, logs = []\<rparr>"

definition extend_world :: "world \<Rightarrow> world \<Rightarrow> world" where
  "extend_world w d = \<lparr>files = files w ++ files d, logs = logs w @ logs d\<rparr>"

text \<open>A name that can denote a file directly inside a directory: one segment, not empty and
  neither of the two directory links.\<close>

definition proper_segment :: "string \<Rightarrow> bool" where
  "proper_segment seg =
     (seg \<noteq> [] \<and> seg \<noteq> ''.'' \<and> seg \<noteq> ''..'' \<and> CHR ''/'' \<notin> set seg)"

text \<open>The listed sequence: the entries announced by the records
  \<^verbatim>\<open>Found embedded file\<close> and \<^verbatim>\<open>Found embedded stream\<close>, each with its name, size
  and media type, in the order of the log.\<close>

fun found_entry :: "log_record \<Rightarrow> (string \<times> nat \<times> string) option" where
  "found_entry (l, Found_file n s t) = Some (n, s, t)"
| "found_entry (l, Found_stream n s t) = Some (n, s, t)"
| "found_entry (l, m) = None"

definition listing :: "log_record list \<Rightarrow> (string \<times> nat \<times> string) list" where
  "listing rs = List.map_filter found_entry rs"

subsection \<open>Sample inputs\<close>

text \<open>An archive with a traversal name, a directory placeholder, a member whose data cannot
  be read, and a nested name.\<close>

definition example_members :: "zip_member list" where
  "example_members =
     [\<lparr>filename = ''../../etc/passwd'', file_size = 2, member_open = Inr (Inr [0x72, 0x6F])\<rparr>,
      \<lparr>filename = ''docs/'', file_size = 0, member_open = Inr (Inr [])\<rparr>,
      \<lparr>filename = ''bad.bin'', file_size = 4,
        member_open = Inr (Inl (BadZipFile ''Bad CRC-32 for file''))\<rparr>,
      \<lparr>filename = ''a/b/../../c'', file_size = 1, member_open = Inr (Inr [0x63])\<rparr>]"

text \<open>Two archives with a member whose name \<^verbatim>\<open>guess_type\<close> cannot parse: between
  two plain members, and as a directory placeholder before a plain member.\<close>

definition odd_members :: "zip_member list" where
  "odd_members =
     [\<lparr>filename = ''first.txt'', file_size = 1, member_open = Inr (Inr [0x61])\<rparr>,
      \<lparr>filename = ''a://[x'', file_size = 1, member_open = Inr (Inr [0x62])\<rparr>,
      \<lparr>filename = ''last.txt'', file_size = 1, member_open = Inr (Inr [0x63])\<rparr>]"

definition odd_dir_members :: "zip_member list" where
  "odd_dir_members =
     [\<lparr>filename = ''a://[x/'', file_size = 0, member_open = Inr (Inr [])\<rparr>,
      \<lparr>filename = ''after.txt'', file_size = 1, member_open = Inr (Inr [0x64])\<rparr>]"

text \<open>A compound file with a stream two levels deep, a name without components, a name with
  an empty component, and a stream that cannot be opened.\<close>

definition example_ole :: ole_file where
  "example_ole =
     \<lparr>listdir = Inr [[''Root Entry'', ''Data''], [], [''Storage'', []], [''Broken'']],
      openstream = (\<lambda>p. if p = ''Root Entry/Data'' then Inr [1, 2, 3]
                         else if p = ''Storage/'' then Inr [4, 5]
                         else Inl (OSError ''stream not found''))\<rparr>"

text \<open>A system where \<^verbatim>\<open>archive.zip\<close>, \<^verbatim>\<open>odd.zip\<close> and
  \<^verbatim>\<open>dirs.zip\<close> are ZIP archives, \<^verbatim>\<open>doc.ole\<close> is a compound file,
  \<^verbatim>\<open>polyglot.bin\<close> passes both probes, \<^verbatim>\<open>short.bin\<close> holds two bytes, and
  any other file starts with the ZIP magic without being an archive. \<^verbatim>\<open>guess_type\<close>
  raises on the two names it cannot parse and knows no media type otherwise.\<close>

definition example_env :: env where
  "example_env =
     \<lparr>path_exists = (\<lambda>p. True),
      mkdir = (\<lambda>d. None),
      is_zipfile = (\<lambda>p. p = ''archive.zip'' \<or> p = ''polyglot.bin'' \<or> p = ''odd.zip'' \<or>
                         p = ''dirs.zip''),
      isOleFile = (\<lambda>p. Inr (p = ''doc.ole'' \<or> p = ''polyglot.bin'')),
      ZipFile = (\<lambda>p. if p = ''archive.zip'' \<or> p = ''polyglot.bin'' then Inr example_members
                      else if p = ''odd.zip'' then Inr odd_members
                      else if p = ''dirs.zip'' then Inr odd_dir_members
                      else Inl (BadZipFile ''File is not a zip file'')),
      OleFileIO = (\<lambda>p. if p = ''doc.ole'' \<or> p = ''polyglot.bin'' then Inr example_ole
                        else Inl (OSError ''not an OLE2 structured storage file'')),
      read4 = (\<lambda>p. if p = ''short.bin'' then Inr [0x50, 0x4B] else Inr zip_magic),
      guess_type = (\<lambda>n. if n = ''a://[x'' \<or> n = ''a://[x/''
                         then Inl (ValueError ''Invalid IPv6 URL'') else Inr None),
      open_denied = (\<lambda>p. None),
      write_quota = (\<lambda>p. None)\<rparr>"

section \<open>Properties\<close>

subsection \<open>Path functions\<close>

lemma str_rfind_absent: "c \<notin> set s \<Longrightarrow> str_rfind s c = - 1"
  by (induction s) (auto simp: Let_def)

lemma str_rfind_ge: "- 1 \<le> str_rfind s c"
  by (induction s) (auto simp: Let_def)

lemma str_rfind_last: "c \<notin> set zs \<Longrightarrow> str_rfind (ys @ c # zs) c = int (length ys)"
  by (induction ys) (auto simp: Let_def str_rfind_absent)

lemma basename_no_sep: "CHR ''/'' \<notin> set s \<Longrightarrow> os_path_basename s = s"
  by (simp add: os_path_basename_def str_rfind_absent)

lemma basename_after_sep:
  assumes "CHR ''/'' \<notin> set s"
  shows "os_path_basename (pre @ CHR ''/'' # s) = s"
proof -
  have "str_rfind (pre @ CHR ''/'' # s) CHR ''/'' = int (length pre)"
    using assms by (rule str_rfind_last)
  moreover have "nat (int (length pre) + 1) = Suc (length pre)" by simp
  ultimately show ?thesis
    by (simp add: os_path_basename_def del: of_nat_Suc)
qed

lemma basename_cases:
  "(CHR ''/'' \<notin> set p \<and> os_path_basename p = p) \<or>
   (\<exists>pre. p = pre @ CHR ''/'' # os_path_basename p \<and> CHR ''/'' \<notin> set (os_path_basename p))"
proof (cases "CHR ''/'' \<in> set p")
  case False
  then show ?thesis by (simp add: basename_no_sep)
next
  case True
  then obtain ys zs where "p = ys @ CHR ''/'' # zs" "CHR ''/'' \<notin> set zs"
    by (meson split_list_last)
  then show ?thesis by (auto simp: basename_after_sep)
qed

lemma basename_sep_free: "CHR ''/'' \<notin> set (os_path_basename p)"
  using basename_cases [of p] by auto

subsection \<open>A run adds to the world it starts from\<close>


lemma logs_extend_world [simp]: "logs (extend_world w d) = logs w @ logs d"
  by (simp add: extend_world_def)

lemma files_empty_world [simp]: "files empty_world = Map.empty"
  by (simp add: empty_world_def)

lemma logs_empty_world [simp]: "logs empty_world = []"
  by (simp add: empty_world_def)

lemma extend_world_empty [simp]: "extend_world w empty_world = w"
  by (simp add: extend_world_def)

lemma extend_empty_world [simp]: "extend_world empty_world d = d"
  by (simp add: extend_world_def)

lemma extend_world_assoc:
  "extend_world (extend_world w a) b = extend_world w (extend_world a b)"
  by (simp add: extend_world_def)

lemma files_logging [simp]: "files (logging l m w) = files w"
  by (simp add: logging_def)

lemma logs_logging [simp]: "logs (logging l m w) = logs w @ [(l, m)]"
  by (simp add: logging_def)


lemma open_wb_extend:
  "open_wb E p (extend_world w d) =
     (fst (open_wb E p d), extend_world w (snd (open_wb E p d)))"
  by (simp add: open_wb_def extend_world_def Let_def split: option.splits)

lemma file_write_extend:
  "file_write E p c (extend_world w d) =
     (fst (file_write E p c d), extend_world w (snd (file_write E p c d)))"
  by (simp add: file_write_def extend_world_def split: option.splits)

lemma zip_copy_member_extend:
  "zip_copy_member E p m (extend_world w d) =
     (fst (zip_copy_member E p m d), extend_world w (snd (zip_copy_member E p m d)))"
  by (simp add: zip_copy_member_def open_wb_extend file_write_extend
      split: sum.splits prod.splits option.splits)

lemma write_stream_extend:
  "write_stream E p c (extend_world w d) =
     (fst (write_stream E p c d), extend_world w (snd (write_stream E p c d)))"
  by (simp add: write_stream_def open_wb_extend file_write_extend
      split: sum.splits prod.splits option.splits)









subsection \<open>Which files a run touches\<close>

lemma join_sep_free:
  "CHR ''/'' \<notin> set seg \<Longrightarrow>
   os_path_join d seg = (if d = [] \<or> last d = CHR ''/'' then d else d @ ''/'') @ seg"
  by (cases seg) (auto simp: os_path_join_def)

lemma basename_join:
  assumes "CHR ''/'' \<notin> set seg"
  shows "os_path_basename (os_path_join d seg) = seg"
proof (cases "d = []")
  case True
  with assms show ?thesis by (simp add: join_sep_free basename_no_sep)
next
  case False
  show ?thesis
  proof (cases "last d = CHR ''/''")
    case True
    with False have "d = butlast d @ [CHR ''/'']"
      by (metis append_butlast_last_id)
    then have "os_path_join d seg = butlast d @ CHR ''/'' # seg"
      using assms True False by (simp add: join_sep_free)
    then show ?thesis using assms by (simp add: basename_after_sep)
  next
    case no: False
    then have "os_path_join d seg = d @ CHR ''/'' # seg"
      using assms False by (simp add: join_sep_free)
    then show ?thesis using assms by (simp add: basename_after_sep)
  qed
qed

lemma open_wb_files:
  "files (snd (open_wb E q w)) p \<noteq> files w p \<Longrightarrow> p = q \<and> proper_segment (os_path_basename q)"
  by (auto simp: open_wb_def Let_def proper_segment_def basename_sep_free
      split: option.splits if_splits)

lemma open_wb_ok:
  "open_wb E q w = (None, w1) \<Longrightarrow> proper_segment (os_path_basename q)"
  by (auto simp: open_wb_def Let_def proper_segment_def basename_sep_free
      split: option.splits if_splits)

lemma open_wb_ok_files:
  "open_wb E q w = (None, w1) \<Longrightarrow> files w1 = (files w)(q \<mapsto> []) \<and> logs w1 = logs w"
  by (auto simp: open_wb_def Let_def split: option.splits if_splits)

lemma open_wb_fail:
  "open_wb E q w = (Some e, w1) \<Longrightarrow> w1 = w"
  by (auto simp: open_wb_def Let_def split: option.splits if_splits)

lemma file_write_other:
  "p \<noteq> q \<Longrightarrow> files (snd (file_write E q c w)) p = files w p"
  by (simp add: file_write_def split: option.splits)

lemma open_wb_other:
  "p \<noteq> q \<Longrightarrow> files (snd (open_wb E q w)) p = files w p"
  by (simp add: open_wb_def Let_def split: option.splits)

lemma open_wb_improper:
  "\<not> proper_segment (os_path_basename q) \<Longrightarrow>
   open_wb E q w = (Some (OSError ''Is a directory''), w)"
  by (simp add: open_wb_def Let_def proper_segment_def basename_sep_free)

lemma zip_copy_member_other:
  "p \<noteq> q \<Longrightarrow> files (snd (zip_copy_member E q m w)) p = files w p"
  using open_wb_other [of p q E w]
  by (auto simp: zip_copy_member_def file_write_other split: sum.splits prod.splits option.splits)

lemma zip_copy_member_improper:
  "\<not> proper_segment (os_path_basename q) \<Longrightarrow>
   snd (zip_copy_member E q m w) = w"
  by (simp add: zip_copy_member_def open_wb_improper split: sum.splits)

lemma zip_copy_member_files:
  "files (snd (zip_copy_member E q m w)) p \<noteq> files w p \<Longrightarrow>
   p = q \<and> proper_segment (os_path_basename q)"
  using zip_copy_member_other [of p q E m w] zip_copy_member_improper [of q E m w]
  by (cases "p = q"; cases "proper_segment (os_path_basename q)") simp_all

lemma write_stream_other:
  "p \<noteq> q \<Longrightarrow> files (snd (write_stream E q c w)) p = files w p"
  using open_wb_other [of p q E w]
  by (auto simp: write_stream_def file_write_other split: prod.splits option.splits)

lemma write_stream_improper:
  "\<not> proper_segment (os_path_basename q) \<Longrightarrow> snd (write_stream E q c w) = w"
  by (simp add: write_stream_def open_wb_improper)

lemma write_stream_files:
  "files (snd (write_stream E q c w)) p \<noteq> files w p \<Longrightarrow>
   p = q \<and> proper_segment (os_path_basename q)"
  using write_stream_other [of p q E c w] write_stream_improper [of q E c w]
  by (cases "p = q"; cases "proper_segment (os_path_basename q)") simp_all

lemma extract_zip_entry_files:
  assumes "files (snd (extract_zip_entry E d lo m w)) p \<noteq> files w p"
  shows "\<not> lo \<and> p = os_path_join d (os_path_basename (filename m)) \<and>
         proper_segment (os_path_basename (filename m))"
proof -
  let ?q = "os_path_join d (os_path_basename (filename m))"
  obtain t where t: "file_type_of E (filename m) = Inr t"
    using assms by (cases "file_type_of E (filename m)") (auto simp: extract_zip_entry_def Let_def)
  let ?w1 = "logging INFO (Found_file (filename m) (file_size m) t) w"
  have lo: "\<not> lo" using assms t by (auto simp: extract_zip_entry_def Let_def)
  then have "files (snd (extract_zip_entry E d lo m w)) =
      files (snd (zip_copy_member E ?q m ?w1))"
    using t by (simp add: extract_zip_entry_def Let_def split: prod.splits option.splits)
  with assms have "files (snd (zip_copy_member E ?q m ?w1)) p \<noteq> files ?w1 p" by simp
  then have "p = ?q \<and> proper_segment (os_path_basename ?q)"
    by (rule zip_copy_member_files)
  then show ?thesis using lo by (simp add: basename_join basename_sep_free)
qed

lemma str_replace_sep_free: "CHR ''/'' \<notin> set (str_replace s CHR ''/'' CHR ''_'')"
  by (auto simp: str_replace_def)

lemma extract_ole_stream_files:
  assumes "files (extract_ole_stream E d lo ole n w) p \<noteq> files w p"
  shows "\<not> lo \<and> n \<noteq> [] \<and>
         p = os_path_join d (os_path_basename (str_replace (str_join ''/'' n) CHR ''/'' CHR ''_'')) \<and>
         proper_segment (os_path_basename (str_replace (str_join ''/'' n) CHR ''/'' CHR ''_''))"
proof -
  let ?full = "str_join ''/'' n"
  let ?q = "os_path_join d (os_path_basename (str_replace ?full CHR ''/'' CHR ''_''))"
  have n: "n \<noteq> []" using assms by (auto simp: extract_ole_stream_def)
  obtain c where c: "openstream ole ?full = Inr c"
    using assms n by (cases "openstream ole ?full") (auto simp: extract_ole_stream_def Let_def)
  obtain t where t: "file_type_of E ?full = Inr t"
    using assms n c by (cases "file_type_of E ?full") (auto simp: extract_ole_stream_def Let_def)
  let ?w1 = "logging INFO (Found_stream ?full (length c) t) w"
  have lo: "\<not> lo" using assms n c t by (auto simp: extract_ole_stream_def Let_def)
  then have "files (extract_ole_stream E d lo ole n w) = files (snd (write_stream E ?q c ?w1))"
    using n c t by (simp add: extract_ole_stream_def Let_def split: prod.splits option.splits)
  with assms have "files (snd (write_stream E ?q c ?w1)) p \<noteq> files ?w1 p" by simp
  then have "p = ?q \<and> proper_segment (os_path_basename ?q)"
    by (rule write_stream_files)
  then show ?thesis using lo n by (simp add: basename_join basename_sep_free)
qed

lemma extract_zip_loop_files:
  "files (snd (extract_zip_loop E d lo ms w)) p \<noteq> files w p \<Longrightarrow>
   \<not> lo \<and> p = os_path_join d (os_path_basename p) \<and> proper_segment (os_path_basename p)"
proof (induction ms arbitrary: w)
  case Nil
  then show ?case by simp
next
  case (Cons m ms)
  let ?w1 = "snd (extract_zip_entry E d lo m w)"
  show ?case
  proof (cases "files ?w1 p = files w p")
    case True
    with Cons.prems have "files (snd (extract_zip_loop E d lo ms ?w1)) p \<noteq> files ?w1 p"
      by (cases "extract_zip_entry E d lo m w") (auto split: option.splits)
    then show ?thesis by (rule Cons.IH)
  next
    case False
    then show ?thesis
      using extract_zip_entry_files [of E d lo m w p]
      by (simp add: basename_join basename_sep_free)
  qed
qed

lemma extract_ole_loop_files:
  "files (extract_ole_loop E d lo ole ns w) p \<noteq> files w p \<Longrightarrow>
   \<not> lo \<and> p = os_path_join d (os_path_basename p) \<and> proper_segment (os_path_basename p)"
proof (induction ns arbitrary: w)
  case Nil
  then show ?case by simp
next
  case (Cons n ns)
  let ?w1 = "extract_ole_stream E d lo ole n w"
  show ?case
  proof (cases "files ?w1 p = files w p")
    case True
    with Cons.prems have "files (extract_ole_loop E d lo ole ns ?w1) p \<noteq> files ?w1 p" by simp
    then show ?thesis by (rule Cons.IH)
  next
    case False
    then show ?thesis
      using extract_ole_stream_files [of E d lo ole n w p]
      by (simp add: basename_join basename_sep_free)
  qed
qed

lemma files_zip_failure [simp]: "files (snd (zip_failure fp e w)) = files w"
  by (simp add: zip_failure_def)

lemma extract_zip_files_loop:
  "files (snd (extract_zip E fp d lo w)) =
     (case ZipFile E fp of
        Inl e \<Rightarrow> files w
      | Inr ms \<Rightarrow> files (snd (extract_zip_loop E d lo ms (logging INFO (Processing_zip fp) w))))"
  by (simp add: extract_zip_def split: sum.splits prod.splits option.splits)

lemma extract_zip_files:
  assumes "files (snd (extract_zip E fp d lo w)) p \<noteq> files w p"
  shows "\<not> lo \<and> p = os_path_join d (os_path_basename p) \<and> proper_segment (os_path_basename p)"
proof (cases "ZipFile E fp")
  case (Inl e)
  with assms show ?thesis by (simp add: extract_zip_files_loop)
next
  case (Inr ms)
  with assms have
    "files (snd (extract_zip_loop E d lo ms (logging INFO (Processing_zip fp) w))) p \<noteq>
     files (logging INFO (Processing_zip fp) w) p"
    by (simp add: extract_zip_files_loop)
  then show ?thesis by (rule extract_zip_loop_files)
qed

lemma extract_ole_files:
  "files (snd (extract_ole E fp d lo w)) p \<noteq> files w p \<Longrightarrow>
   \<not> lo \<and> p = os_path_join d (os_path_basename p) \<and> proper_segment (os_path_basename p)"
  using extract_ole_loop_files [of E d lo _ _ "logging INFO (Processing_ole fp) w" p]
  by (auto simp: extract_ole_def Let_def split: sum.splits bool.splits if_splits)

lemma main_files:
  assumes "files (snd (main E a w)) p \<noteq> files w p"
  shows "\<not> arg_list a \<and> p = os_path_join (arg_output a) (os_path_basename p) \<and>
         proper_segment (os_path_basename p)"
proof (rule ccontr)
  assume neg: "\<not> ?thesis"
  have z: "files (snd (extract_zip E (arg_filepath a) (arg_output a) (arg_list a) w')) p = files w' p"
    for w' using neg extract_zip_files [of E "arg_filepath a" "arg_output a" "arg_list a" w' p]
    by blast
  have ole: "files (snd (extract_ole E (arg_filepath a) (arg_output a) (arg_list a) w')) p = files w' p"
    for w' using neg extract_ole_files [of E "arg_filepath a" "arg_output a" "arg_list a" w' p]
    by blast
  have "files (snd (main E a w)) p = files w p"
    by (simp add: main_def Let_def z ole split: sum.splits bool.splits option.splits)
  with assms show False by simp
qed

subsection \<open>The sample inputs, run\<close>

lemmas run_defs = extract_zip_def extract_zip_entry_def zip_copy_member_def open_wb_def
  file_write_def os_path_basename_def os_path_join_def logging_def file_type_of_def
  zip_failure_def extract_ole_def extract_ole_stream_def write_stream_def str_replace_def
  example_env_def example_members_def example_ole_def empty_world_def Let_def

lemma example_zip_run:
  "extract_zip example_env ''archive.zip'' ''out'' False empty_world =
     (True,
      \<lparr>files = [''out/passwd'' \<mapsto> [0x72, 0x6F], ''out/bad.bin'' \<mapsto> [], ''out/c'' \<mapsto> [0x63]],
       logs =
         [(INFO, Processing_zip ''archive.zip''),
          (INFO, Found_file ''../../etc/passwd'' 2 ''application/octet-stream''),
          (INFO, Extracted ''../../etc/passwd'' ''out/passwd''),
          (INFO, Found_file ''docs/'' 0 ''application/octet-stream''),
          (ERROR, Error_extracting ''docs/'' (OSError ''Is a directory'')),
          (INFO, Found_file ''bad.bin'' 4 ''application/octet-stream''),
          (ERROR, Error_extracting ''bad.bin'' (BadZipFile ''Bad CRC-32 for file'')),
          (INFO, Found_file ''a/b/../../c'' 1 ''application/octet-stream''),
          (INFO, Extracted ''a/b/../../c'' ''out/c'')]\<rparr>)"
  by (simp add: run_defs)

lemma example_zip_list:
  "extract_zip example_env ''archive.zip'' ''out'' True empty_world =
     (True,
      \<lparr>files = Map.empty,
       logs =
         [(INFO, Processing_zip ''archive.zip''),
          (INFO, Found_file ''../../etc/passwd'' 2 ''application/octet-stream''),
          (INFO, Found_file ''docs/'' 0 ''application/octet-stream''),
          (INFO, Found_file ''bad.bin'' 4 ''application/octet-stream''),
          (INFO, Found_file ''a/b/../../c'' 1 ''application/octet-stream'')]\<rparr>)"
  by (simp add: run_defs)

lemma example_ole_run:
  "extract_ole example_env ''doc.ole'' ''out'' False empty_world =
     (True,
      \<lparr>files = [''out/Root Entry_Data'' \<mapsto> [1, 2, 3], ''out/Storage_'' \<mapsto> [4, 5]],
       logs =
         [(INFO, Processing_ole ''doc.ole''),
          (INFO, Found_stream ''Root Entry/Data'' 3 ''application/octet-stream''),
          (INFO, Extracted ''Root Entry/Data'' ''out/Root Entry_Data''),
          (INFO, Found_stream ''Storage/'' 2 ''application/octet-stream''),
          (INFO, Extracted ''Storage/'' ''out/Storage_''),
          (ERROR, Error_extracting_stream ''Broken'' (OSError ''stream not found''))]\<rparr>)"
  by (simp add: run_defs)

lemma example_ole_list:
  "extract_ole example_env ''doc.ole'' ''out'' True empty_world =
     (True,
      \<lparr>files = Map.empty,
       logs =
         [(INFO, Processing_ole ''doc.ole''),
          (INFO, Found_stream ''Root Entry/Data'' 3 ''application/octet-stream''),
          (INFO, Found_stream ''Storage/'' 2 ''application/octet-stream''),
          (ERROR, Error_extracting_stream ''Broken'' (OSError ''stream not found''))]\<rparr>)"
  by (simp add: run_defs)

lemma basename_split:
  "\<exists>pre. name = pre @ os_path_basename name \<and> (pre = [] \<or> last pre = CHR ''/'')"
  using basename_cases [of name]
proof
  assume "CHR ''/'' \<notin> set name \<and> os_path_basename name = name"
  then have "name = [] @ os_path_basename name" by simp
  then show ?thesis by blast
next
  assume "\<exists>pre. name = pre @ CHR ''/'' # os_path_basename name \<and>
            CHR ''/'' \<notin> set (os_path_basename name)"
  then obtain pre where "name = (pre @ ''/'') @ os_path_basename name" by auto
  moreover have "last (pre @ ''/'') = CHR ''/''" by simp
  ultimately show ?thesis by blast
qed

text \<open>
  C1. The destination of an extracted entry is the output directory joined with the final
  segment of the entry's name: the part after the last \<open>/\<close>, itself free of \<open>/\<close>. For a
  stream, every \<open>/\<close> of the joined path is replaced by \<open>_\<close> before the final segment is
  taken. So \<open>../../etc/passwd\<close> goes to \<open>passwd\<close>, \<open>a/b/../../c\<close> to \<open>c\<close> and the stream
  \<open>[Root Entry, Data]\<close> to \<open>Root Entry_Data\<close> in the output directory. A file that one
  entry, a whole run of \<open>extract_zip\<close> or \<open>extract_ole\<close>, or \<open>main\<close> creates or changes lies
  directly in the output directory: its path is the output directory joined with its own
  final segment, which is a proper file name.
\<close>

theorem safe_destination:
  "CHR ''/'' \<notin> set (os_path_basename name) \<and>
   (\<exists>pre. name = pre @ os_path_basename name \<and> (pre = [] \<or> last pre = CHR ''/'')) \<and>
   os_path_join d (os_path_basename name) =
     (if d = [] \<or> last d = CHR ''/'' then d else d @ ''/'') @ os_path_basename name \<and>
   os_path_basename ''../../etc/passwd'' = ''passwd'' \<and>
   os_path_basename ''a/b/../../c'' = ''c'' \<and>
   os_path_basename (str_replace (str_join ''/'' [''Root Entry'', ''Data'']) CHR ''/'' CHR ''_'') =
     ''Root Entry_Data'' \<and>
   (files (snd (extract_zip_entry E d lo m w)) p \<noteq> files w p \<longrightarrow>
      p = os_path_join d (os_path_basename (filename m)) \<and>
      proper_segment (os_path_basename (filename m))) \<and>
   (files (extract_ole_stream E d lo ole n w) p \<noteq> files w p \<longrightarrow>
      p = os_path_join d
            (os_path_basename (str_replace (str_join ''/'' n) CHR ''/'' CHR ''_'')) \<and>
      proper_segment (os_path_basename (str_replace (str_join ''/'' n) CHR ''/'' CHR ''_''))) \<and>
   (files (snd (extract_zip E fp d lo w)) p \<noteq> files w p \<longrightarrow>
      p = os_path_join d (os_path_basename p) \<and> proper_segment (os_path_basename p)) \<and>
   (files (snd (extract_ole E fp d lo w)) p \<noteq> files w p \<longrightarrow>
      p = os_path_join d (os_path_basename p) \<and> proper_segment (os_path_basename p)) \<and>
   (files (snd (main E a w)) p \<noteq> files w p \<longrightarrow>
      p = os_path_join (arg_output a) (os_path_basename p) \<and>
      proper_segment (os_path_basename p))"
proof -
  have ex1: "os_path_basename ''../../etc/passwd'' = ''passwd''"
    by (simp add: os_path_basename_def)
  have ex2: "os_path_basename ''a/b/../../c'' = ''c''"
    by (simp add: os_path_basename_def)
  have ex3: "os_path_basename
      (str_replace (str_join ''/'' [''Root Entry'', ''Data'']) CHR ''/'' CHR ''_'') =
     ''Root Entry_Data''"
    by (simp add: os_path_basename_def str_replace_def)
  have c1: "CHR ''/'' \<notin> set (os_path_basename name)" by (rule basename_sep_free)
  have c3: "os_path_join d (os_path_basename name) =
     (if d = [] \<or> last d = CHR ''/'' then d else d @ ''/'') @ os_path_basename name"
    using c1 by (rule join_sep_free)
  show ?thesis
    apply (intro conjI impI)
                   apply (rule c1)
                  apply (rule basename_split)
                 apply (rule c3)
                apply (rule ex1)
               apply (rule ex2)
              apply (rule ex3)
             apply (simp add: extract_zip_entry_files)
            apply (simp add: extract_zip_entry_files)
           apply (simp add: extract_ole_stream_files)
          apply (simp add: extract_ole_stream_files)
         apply (erule extract_zip_files [THEN conjunct2, THEN conjunct1])
        apply (erule extract_zip_files [THEN conjunct2, THEN conjunct2])
       apply (erule extract_ole_files [THEN conjunct2, THEN conjunct1])
      apply (erule extract_ole_files [THEN conjunct2, THEN conjunct2])
     apply (erule main_files [THEN conjunct2, THEN conjunct1])
    apply (erule main_files [THEN conjunct2, THEN conjunct2])
    done
qed


lemma example_entry_run:
  "extract_zip_entry example_env ''out'' False
     \<lparr>filename = ''../../etc/passwd'', file_size = 2, member_open = Inr (Inr [0x72, 0x6F])\<rparr>
     empty_world =
   (None,
    \<lparr>files = [''out/passwd'' \<mapsto> [0x72, 0x6F]],
     logs = [(INFO, Found_file ''../../etc/passwd'' 2 ''application/octet-stream''),
             (INFO, Extracted ''../../etc/passwd'' ''out/passwd'')]\<rparr>)"
  by (simp add: run_defs)

lemma example_stream_run:
  "extract_ole_stream example_env ''out'' False example_ole [''Root Entry'', ''Data''] empty_world =
   \<lparr>files = [''out/Root Entry_Data'' \<mapsto> [1, 2, 3]],
    logs = [(INFO, Found_stream ''Root Entry/Data'' 3 ''application/octet-stream''),
            (INFO, Extracted ''Root Entry/Data'' ''out/Root Entry_Data'')]\<rparr>"
  by (simp add: run_defs)

lemma example_main_run:
  "main example_env
     \<lparr>arg_filepath = ''archive.zip'', arg_output = ''out'', arg_list = False,
      arg_verbose = False\<rparr> empty_world =
   (Inr PyNone, snd (extract_zip example_env ''archive.zip'' ''out'' False empty_world))"
  by (simp add: main_def example_env_def Let_def)

theorem safe_destination_witness:
  "files (snd (extract_zip_entry example_env ''out'' False
            \<lparr>filename = ''../../etc/passwd'', file_size = 2,
              member_open = Inr (Inr [0x72, 0x6F])\<rparr>
            empty_world)) ''out/passwd'' \<noteq> files empty_world ''out/passwd'' \<and>
   os_path_join ''out'' (os_path_basename ''../../etc/passwd'') = ''out/passwd'' \<and>
   files (extract_ole_stream example_env ''out'' False example_ole [''Root Entry'', ''Data'']
            empty_world) ''out/Root Entry_Data'' \<noteq> files empty_world ''out/Root Entry_Data'' \<and>
   os_path_join ''out''
     (os_path_basename (str_replace (str_join ''/'' [''Root Entry'', ''Data'']) CHR ''/'' CHR ''_'')) =
     ''out/Root Entry_Data'' \<and>
   files (snd (extract_zip example_env ''archive.zip'' ''out'' False empty_world)) ''out/c'' \<noteq>
     files empty_world ''out/c'' \<and>
   files (snd (extract_ole example_env ''doc.ole'' ''out'' False empty_world)) ''out/Storage_'' \<noteq>
     files empty_world ''out/Storage_'' \<and>
   files (snd (main example_env
                 \<lparr>arg_filepath = ''archive.zip'', arg_output = ''out'', arg_list = False,
                  arg_verbose = False\<rparr> empty_world)) ''out/c'' \<noteq> files empty_world ''out/c'' \<and>
   ''out/c'' = os_path_join ''out'' (os_path_basename ''out/c'') \<and>
   ''out/Storage_'' = os_path_join ''out'' (os_path_basename ''out/Storage_'') \<and>
   proper_segment (os_path_basename ''out/c'') \<and>
   proper_segment (os_path_basename ''out/Storage_'') \<and>
   proper_segment (os_path_basename ''../../etc/passwd'')"
  using
    safe_destination [where name = "''../../etc/passwd''" and d = "''out''" and lo = False
      and E = example_env and w = empty_world and p = "''out/passwd''"
      and m = "\<lparr>filename = ''../../etc/passwd'', file_size = 2,
                member_open = Inr (Inr [0x72, 0x6F])\<rparr>"
      and ole = example_ole and n = "[''Root Entry'', ''Data'']"
      and fp = "''archive.zip''"
      and a = "\<lparr>arg_filepath = ''archive.zip'', arg_output = ''out'', arg_list = False,
                 arg_verbose = False\<rparr>"]
  by (simp add: example_main_run example_zip_run example_ole_run example_entry_run
      example_stream_run os_path_basename_def os_path_join_def str_replace_def
      proper_segment_def)

subsection \<open>Iteration, results and the log\<close>


lemma zip_copy_member_fst:
  "fst (zip_copy_member E p m w) = fst (zip_copy_member E p m w')"
  using zip_copy_member_extend [of E p m w empty_world]
    zip_copy_member_extend [of E p m w' empty_world]
  by simp

lemma write_stream_fst:
  "fst (write_stream E p c w) = fst (write_stream E p c w')"
  using write_stream_extend [of E p c w empty_world]
    write_stream_extend [of E p c w' empty_world]
  by simp

lemma open_wb_fst: "fst (open_wb E p w) = fst (open_wb E p w')"
  by (simp add: open_wb_def Let_def split: option.splits)

lemma open_wb_logs: "logs (snd (open_wb E p w)) = logs w"
  by (simp add: open_wb_def Let_def split: option.splits)

lemma file_write_logs: "logs (snd (file_write E p c w)) = logs w"
  by (simp add: file_write_def split: option.splits)

lemma zip_copy_member_logs: "logs (snd (zip_copy_member E p m w)) = logs w"
proof (cases "open_wb E p w")
  case (Pair r w1)
  then have "logs w1 = logs w" using open_wb_logs [of E p w] by simp
  with Pair show ?thesis
    by (simp add: zip_copy_member_def file_write_logs split: sum.splits option.splits)
qed

lemma write_stream_logs: "logs (snd (write_stream E p c w)) = logs w"
proof (cases "open_wb E p w")
  case (Pair r w1)
  then have "logs w1 = logs w" using open_wb_logs [of E p w] by simp
  with Pair show ?thesis
    by (simp add: write_stream_def file_write_logs split: option.splits)
qed

lemma file_type_of_cases:
  "(\<exists>e. file_type_of E name = Inl e \<and> guess_type E name = Inl e) \<or>
   (\<exists>t g. file_type_of E name = Inr t \<and> guess_type E name = Inr g)"
  by (cases "guess_type E name")
    (auto simp: file_type_of_def split: option.splits)

lemma file_type_of_Inr:
  "(\<exists>t. file_type_of E name = Inr t) = (\<exists>g. guess_type E name = Inr g)"
  using file_type_of_cases [of E name] by auto

lemma extract_zip_entry_raises:
  "file_type_of E (filename m) = Inl e \<Longrightarrow> extract_zip_entry E d lo m w = (Some e, w)"
  by (simp add: extract_zip_entry_def Let_def)

lemma extract_zip_entry_fst:
  "fst (extract_zip_entry E d lo m w) =
     (case file_type_of E (filename m) of Inl e \<Rightarrow> Some e | Inr t \<Rightarrow> None)"
  by (simp add: extract_zip_entry_def Let_def split: sum.splits prod.splits option.splits)

lemma extract_zip_entry_returns:
  "file_type_of E (filename m) = Inr t \<Longrightarrow> fst (extract_zip_entry E d lo m w) = None"
  by (simp add: extract_zip_entry_fst)


lemma extract_zip_entry_files_eq:
  "file_type_of E (filename m) = Inr t \<Longrightarrow>
   files (snd (extract_zip_entry E d False m w)) =
     files (snd (zip_copy_member E (os_path_join d (os_path_basename (filename m))) m
                  (logging INFO (Found_file (filename m) (file_size m) t) w)))"
  by (simp add: extract_zip_entry_def Let_def split: prod.splits option.splits)

lemma extract_zip_entry_logs:
  assumes "file_type_of E (filename m) = Inr t"
  shows "logs (snd (extract_zip_entry E d False m w)) =
     logs w @
     [(INFO, Found_file (filename m) (file_size m) t),
      (case fst (zip_copy_member E (os_path_join d (os_path_basename (filename m))) m w) of
         None \<Rightarrow> (INFO, Extracted (filename m) (os_path_join d (os_path_basename (filename m))))
       | Some e \<Rightarrow> (ERROR, Error_extracting (filename m) e))]"
proof -
  let ?p = "os_path_join d (os_path_basename (filename m))"
  let ?w1 = "logging INFO (Found_file (filename m) (file_size m) t) w"
  have f: "fst (zip_copy_member E ?p m ?w1) = fst (zip_copy_member E ?p m w)"
    by (rule zip_copy_member_fst)
  have l: "logs (snd (zip_copy_member E ?p m ?w1)) = logs ?w1"
    by (rule zip_copy_member_logs)
  show ?thesis
    using f l assms
    by (cases "zip_copy_member E ?p m ?w1"; cases "fst (zip_copy_member E ?p m w)")
       (auto simp: extract_zip_entry_def Let_def)
qed











lemma extract_ole_stream_empty: "extract_ole_stream E d lo ole [] w = w"
  by (simp add: extract_ole_stream_def)

lemma extract_ole_stream_raises:
  "n \<noteq> [] \<Longrightarrow> openstream ole (str_join ''/'' n) = Inl e \<Longrightarrow>
   extract_ole_stream E d lo ole n w =
     logging ERROR (Error_extracting_stream (str_join ''/'' n) e) w"
  by (simp add: extract_ole_stream_def Let_def)

lemma extract_ole_stream_type_raises:
  "n \<noteq> [] \<Longrightarrow> openstream ole (str_join ''/'' n) = Inr c \<Longrightarrow>
   file_type_of E (str_join ''/'' n) = Inl e \<Longrightarrow>
   extract_ole_stream E d lo ole n w =
     logging ERROR (Error_extracting_stream (str_join ''/'' n) e) w"
  by (simp add: extract_ole_stream_def Let_def)

lemma extract_ole_stream_list_only:
  "n \<noteq> [] \<Longrightarrow> openstream ole (str_join ''/'' n) = Inr c \<Longrightarrow>
   file_type_of E (str_join ''/'' n) = Inr t \<Longrightarrow>
   extract_ole_stream E d True ole n w =
     logging INFO (Found_stream (str_join ''/'' n) (length c) t) w"
  by (simp add: extract_ole_stream_def Let_def)

lemma extract_ole_stream_files_eq:
  "n \<noteq> [] \<Longrightarrow> openstream ole (str_join ''/'' n) = Inr c \<Longrightarrow>
   file_type_of E (str_join ''/'' n) = Inr t \<Longrightarrow>
   files (extract_ole_stream E d False ole n w) =
     files (snd (write_stream E
                  (os_path_join d
                     (os_path_basename (str_replace (str_join ''/'' n) CHR ''/'' CHR ''_'')))
                  c
                  (logging INFO (Found_stream (str_join ''/'' n) (length c) t) w)))"
  by (simp add: extract_ole_stream_def Let_def split: prod.splits option.splits)

lemma extract_ole_stream_logs:
  assumes "n \<noteq> []" and "openstream ole (str_join ''/'' n) = Inr c"
    and "file_type_of E (str_join ''/'' n) = Inr t"
  shows "logs (extract_ole_stream E d False ole n w) =
     logs w @
     [(INFO, Found_stream (str_join ''/'' n) (length c) t),
      (case fst (write_stream E
                  (os_path_join d
                     (os_path_basename (str_replace (str_join ''/'' n) CHR ''/'' CHR ''_'')))
                  c w) of
         None \<Rightarrow>
           (INFO, Extracted (str_join ''/'' n)
              (os_path_join d
                 (os_path_basename (str_replace (str_join ''/'' n) CHR ''/'' CHR ''_''))))
       | Some e \<Rightarrow> (ERROR, Error_extracting_stream (str_join ''/'' n) e))]"
proof -
  let ?full = "str_join ''/'' n"
  let ?p = "os_path_join d (os_path_basename (str_replace ?full CHR ''/'' CHR ''_''))"
  let ?w1 = "logging INFO (Found_stream ?full (length c) t) w"
  have f: "fst (write_stream E ?p c ?w1) = fst (write_stream E ?p c w)"
    by (rule write_stream_fst)
  have l: "logs (snd (write_stream E ?p c ?w1)) = logs ?w1"
    by (rule write_stream_logs)
  show ?thesis
    using f l assms
    by (cases "write_stream E ?p c ?w1"; cases "fst (write_stream E ?p c w)")
       (auto simp: extract_ole_stream_def Let_def)
qed



subsection \<open>The listed sequence\<close>

lemma listing_append: "listing (xs @ ys) = listing xs @ listing ys"
  by (simp add: listing_def List.map_filter_def)

lemma listing_Nil: "listing [] = []"
  by (simp add: listing_def List.map_filter_def)

lemma listing_Cons:
  "listing (r # rs) = (case found_entry r of None \<Rightarrow> listing rs | Some x \<Rightarrow> x # listing rs)"
  by (simp add: listing_def List.map_filter_def split: option.splits)

lemma listing_logging:
  "listing (logs (logging l msg w)) =
     listing (logs w) @ (case found_entry (l, msg) of None \<Rightarrow> [] | Some x \<Rightarrow> [x])"
  by (simp add: listing_append listing_Cons listing_Nil split: option.splits)



lemma extract_ole_stream_listing:
  "n \<noteq> [] \<Longrightarrow> openstream ole (str_join ''/'' n) = Inr c \<Longrightarrow>
   file_type_of E (str_join ''/'' n) = Inr t \<Longrightarrow>
   listing (logs (extract_ole_stream E d lo ole n w)) =
     listing (logs w) @ [(str_join ''/'' n, length c, t)]"
  by (cases lo)
     (simp_all add: extract_ole_stream_list_only extract_ole_stream_logs listing_append
        listing_Cons listing_Nil split: option.splits)

lemma extract_zip_list_only: "files (snd (extract_zip E fp d True w)) = files w"
proof
  fix p
  show "files (snd (extract_zip E fp d True w)) p = files w p"
    using extract_zip_files [of E fp d True w p] by blast
qed

lemma extract_ole_list_only: "files (snd (extract_ole E fp d True w)) = files w"
proof
  fix p
  show "files (snd (extract_ole E fp d True w)) p = files w p"
    using extract_ole_files [of E fp d True w p] by blast
qed

lemma main_list_only: "arg_list a \<Longrightarrow> files (snd (main E a w)) = files w"
proof
  fix p
  assume "arg_list a"
  then show "files (snd (main E a w)) p = files w p"
    using main_files [of E a w p] by blast
qed

lemma example_file_type:
  "name \<noteq> ''a://[x'' \<Longrightarrow> name \<noteq> ''a://[x/'' \<Longrightarrow>
   file_type_of example_env name = Inr ''application/octet-stream''"
  by (simp add: file_type_of_def example_env_def)

subsection \<open>What a successful extraction writes\<close>

lemma file_write_ok:
  "fst (file_write E p c w) = None \<Longrightarrow> files (snd (file_write E p c w)) = (files w)(p \<mapsto> c)"
  by (simp add: file_write_def split: option.splits if_splits)

lemma zip_copy_member_ok:
  "fst (zip_copy_member E p m w) = None \<Longrightarrow>
   \<exists>c. member_open m = Inr (Inr c) \<and> files (snd (zip_copy_member E p m w)) p = Some c"
proof (cases "open_wb E p w")
  case (Pair r w1)
  assume ok: "fst (zip_copy_member E p m w) = None"
  show ?thesis
  proof (cases "member_open m")
    case (Inl e)
    with ok show ?thesis by (simp add: zip_copy_member_def)
  next
    case (Inr src)
    show ?thesis
    proof (cases r)
      case (Some e)
      with ok Inr Pair show ?thesis by (simp add: zip_copy_member_def)
    next
      case None
      show ?thesis
      proof (cases src)
        case (Inl e)
        with ok Inr Pair None show ?thesis by (simp add: zip_copy_member_def)
      next
        case inr: (Inr c)
        with ok Inr Pair None have "fst (file_write E p c w1) = None"
          by (simp add: zip_copy_member_def)
        then have "files (snd (file_write E p c w1)) = (files w1)(p \<mapsto> c)"
          by (rule file_write_ok)
        with Inr Pair None inr show ?thesis by (simp add: zip_copy_member_def)
      qed
    qed
  qed
qed

lemma write_stream_ok:
  "fst (write_stream E p c w) = None \<Longrightarrow> files (snd (write_stream E p c w)) p = Some c"
proof (cases "open_wb E p w")
  case (Pair r w1)
  assume ok: "fst (write_stream E p c w) = None"
  show ?thesis
  proof (cases r)
    case (Some e)
    with ok Pair show ?thesis by (simp add: write_stream_def)
  next
    case None
    with ok Pair have "fst (file_write E p c w1) = None" by (simp add: write_stream_def)
    then have "files (snd (file_write E p c w1)) = (files w1)(p \<mapsto> c)"
      by (rule file_write_ok)
    with Pair None show ?thesis by (simp add: write_stream_def)
  qed
qed

lemma extract_zip_entry_extracted:
  assumes "fst (extract_zip_entry E d False m w) = None"
    and "last (logs (snd (extract_zip_entry E d False m w))) =
           (INFO, Extracted (filename m) p)"
  shows "\<exists>c. member_open m = Inr (Inr c) \<and>
             p = os_path_join d (os_path_basename (filename m)) \<and>
             files (snd (extract_zip_entry E d False m w)) p = Some c"
proof -
  let ?q = "os_path_join d (os_path_basename (filename m))"
  obtain t where t: "file_type_of E (filename m) = Inr t"
    using assms(1) by (cases "file_type_of E (filename m)") (simp_all add: extract_zip_entry_fst)
  let ?w1 = "logging INFO (Found_file (filename m) (file_size m) t) w"
  have ok: "fst (zip_copy_member E ?q m w) = None" and p: "p = ?q"
    using assms(2) by (auto simp: extract_zip_entry_logs [OF t] split: option.splits)
  have "fst (zip_copy_member E ?q m ?w1) = None"
    using ok zip_copy_member_fst [of E ?q m ?w1 w] by simp
  then obtain c where "member_open m = Inr (Inr c)"
      "files (snd (zip_copy_member E ?q m ?w1)) ?q = Some c"
    using zip_copy_member_ok by blast
  then show ?thesis using p by (simp add: extract_zip_entry_files_eq [OF t])
qed

lemma extract_ole_stream_extracted:
  assumes "n \<noteq> []"
    and "last (logs (extract_ole_stream E d False ole n w)) =
           (INFO, Extracted (str_join ''/'' n) p)"
  shows "\<exists>c. openstream ole (str_join ''/'' n) = Inr c \<and>
             p = os_path_join d
                   (os_path_basename (str_replace (str_join ''/'' n) CHR ''/'' CHR ''_'')) \<and>
             files (extract_ole_stream E d False ole n w) p = Some c"
proof (cases "openstream ole (str_join ''/'' n)")
  case (Inl e)
  with assms show ?thesis by (simp add: extract_ole_stream_raises)
next
  case (Inr c)
  let ?full = "str_join ''/'' n"
  let ?q = "os_path_join d (os_path_basename (str_replace ?full CHR ''/'' CHR ''_''))"
  show ?thesis
  proof (cases "file_type_of E ?full")
    case (Inl e)
    with assms Inr show ?thesis by (simp add: extract_ole_stream_type_raises)
  next
    case t: (Inr t)
    let ?w1 = "logging INFO (Found_stream ?full (length c) t) w"
    have ok: "fst (write_stream E ?q c w) = None" and p: "p = ?q"
      using assms(2)
      by (auto simp: extract_ole_stream_logs [OF assms(1) Inr t] split: option.splits)
    have "fst (write_stream E ?q c ?w1) = None"
      using ok write_stream_fst [of E ?q c ?w1 w] by simp
    then have "files (snd (write_stream E ?q c ?w1)) ?q = Some c" by (rule write_stream_ok)
    then show ?thesis
      using p Inr by (simp add: extract_ole_stream_files_eq [OF assms(1) Inr t])
  qed
qed

text \<open>
  C7. An entry has been extracted when its step ends with the record
  \<^verbatim>\<open>Extracted ... to ...\<close>: for a ZIP member, when the body of the loop completes
  without raising and the last record it logged is that one. Then the container holds bytes
  for the entry (the member's data for a ZIP member, the stream's data for a stream), the
  path in the record is the destination computed from the entry's name, and the file at that
  path holds exactly these bytes.
\<close>

theorem extracted_bytes_identical:
  "(fst (extract_zip_entry E d False m w) = None \<and>
    last (logs (snd (extract_zip_entry E d False m w))) = (INFO, Extracted (filename m) p) \<longrightarrow>
      (\<exists>c. member_open m = Inr (Inr c) \<and>
            p = os_path_join d (os_path_basename (filename m)) \<and>
            files (snd (extract_zip_entry E d False m w)) p = Some c)) \<and>
   (n \<noteq> [] \<and>
    last (logs (extract_ole_stream E d False ole n w)) =
      (INFO, Extracted (str_join ''/'' n) p) \<longrightarrow>
      (\<exists>c. openstream ole (str_join ''/'' n) = Inr c \<and>
            p = os_path_join d
                  (os_path_basename (str_replace (str_join ''/'' n) CHR ''/'' CHR ''_'')) \<and>
            files (extract_ole_stream E d False ole n w) p = Some c))"
  using extract_zip_entry_extracted [of E d m w p]
    extract_ole_stream_extracted [of n E d ole w p]
  by blast

theorem extracted_bytes_identical_witness:
  "fst (extract_zip_entry example_env ''out'' False
          \<lparr>filename = ''../../etc/passwd'', file_size = 2,
            member_open = Inr (Inr [0x72, 0x6F])\<rparr> empty_world) = None \<and>
   last (logs (snd (extract_zip_entry example_env ''out'' False
                \<lparr>filename = ''../../etc/passwd'', file_size = 2,
                  member_open = Inr (Inr [0x72, 0x6F])\<rparr> empty_world))) =
     (INFO, Extracted ''../../etc/passwd'' ''out/passwd'') \<and>
   files (snd (extract_zip_entry example_env ''out'' False
            \<lparr>filename = ''../../etc/passwd'', file_size = 2,
              member_open = Inr (Inr [0x72, 0x6F])\<rparr> empty_world)) ''out/passwd'' =
     Some [0x72, 0x6F] \<and>
   [''Root Entry'', ''Data''] \<noteq> [] \<and>
   last (logs (extract_ole_stream example_env ''out'' False example_ole
                 [''Root Entry'', ''Data''] empty_world)) =
     (INFO, Extracted ''Root Entry/Data'' ''out/Root Entry_Data'') \<and>
   openstream example_ole ''Root Entry/Data'' = Inr [1, 2, 3] \<and>
   files (extract_ole_stream example_env ''out'' False example_ole
            [''Root Entry'', ''Data''] empty_world) ''out/Root Entry_Data'' = Some [1, 2, 3]"
proof -
  have r: "fst (extract_zip_entry example_env ''out'' False
          \<lparr>filename = ''../../etc/passwd'', file_size = 2,
            member_open = Inr (Inr [0x72, 0x6F])\<rparr> empty_world) = None"
    by (simp add: example_entry_run)
  have z: "last (logs (snd (extract_zip_entry example_env ''out'' False
                \<lparr>filename = ''../../etc/passwd'', file_size = 2,
                  member_open = Inr (Inr [0x72, 0x6F])\<rparr> empty_world))) =
     (INFO, Extracted ''../../etc/passwd'' ''out/passwd'')"
    by (simp add: example_entry_run)
  have o: "last (logs (extract_ole_stream example_env ''out'' False example_ole
                 [''Root Entry'', ''Data''] empty_world)) =
     (INFO, Extracted ''Root Entry/Data'' ''out/Root Entry_Data'')"
    by (simp add: example_stream_run)
  have s: "openstream example_ole ''Root Entry/Data'' = Inr [1, 2, 3]"
    by (simp add: example_ole_def)
  have cz: "files (snd (extract_zip_entry example_env ''out'' False
            \<lparr>filename = ''../../etc/passwd'', file_size = 2,
              member_open = Inr (Inr [0x72, 0x6F])\<rparr> empty_world)) ''out/passwd'' =
     Some [0x72, 0x6F]"
    using r z
      extracted_bytes_identical [where E = example_env and d = "''out''" and w = empty_world
        and p = "''out/passwd''" and n = "[]" and ole = example_ole
        and m = "\<lparr>filename = ''../../etc/passwd'', file_size = 2,
                  member_open = Inr (Inr [0x72, 0x6F])\<rparr>"]
    by (simp add: os_path_join_def os_path_basename_def)
  have co: "files (extract_ole_stream example_env ''out'' False example_ole
            [''Root Entry'', ''Data''] empty_world) ''out/Root Entry_Data'' = Some [1, 2, 3]"
    using o s
      extracted_bytes_identical [where E = example_env and d = "''out''" and w = empty_world
        and p = "''out/Root Entry_Data''" and ole = example_ole
        and n = "[''Root Entry'', ''Data'']"
        and m = "\<lparr>filename = ''docs/'', file_size = 0, member_open = Inr (Inr [])\<rparr>"]
    by (simp add: os_path_join_def os_path_basename_def str_replace_def)
  from r z cz o s co show ?thesis by simp
qed

subsection \<open>What a failed extraction leaves behind\<close>
















subsection \<open>A member name that \<^verbatim>\<open>guess_type\<close> cannot parse\<close>

lemma extract_zip_loop_stops:
  "file_type_of E (filename m) = Inl e \<Longrightarrow>
   extract_zip_loop E d lo (m # ms) w = (Some e, w)"
  by (simp add: extract_zip_entry_raises)

lemma basename_trailing_sep:
  assumes "name \<noteq> []" and "last name = CHR ''/''"
  shows "os_path_basename name = []"
proof -
  have "name = butlast name @ CHR ''/'' # []"
    using assms by (metis append_butlast_last_id)
  moreover have "os_path_basename (butlast name @ CHR ''/'' # []) = []"
    by (rule basename_after_sep) simp
  ultimately show ?thesis by simp
qed

lemma join_empty:
  "os_path_join d [] = (if d = [] \<or> last d = CHR ''/'' then d else d @ ''/'')"
  by (simp add: os_path_join_def)

lemma zip_copy_member_improper_fails:
  "\<not> proper_segment (os_path_basename q) \<Longrightarrow> \<exists>e. fst (zip_copy_member E q m w) = Some e"
  by (cases "member_open m") (simp_all add: zip_copy_member_def open_wb_improper)

lemma extract_zip_entry_unchanged:
  assumes "\<not> proper_segment (os_path_basename (filename m))"
  shows "files (snd (extract_zip_entry E d lo m w)) = files w"
proof
  fix p
  show "files (snd (extract_zip_entry E d lo m w)) p = files w p"
    using extract_zip_entry_files [of E d lo m w p] assms by blast
qed

text \<open>A directory placeholder whose media type can be looked up: it is announced, its
  destination is the output directory itself, the step fails with one error record and
  changes no file.\<close>

lemma directory_member:
  assumes "filename m \<noteq> []" and "last (filename m) = CHR ''/''"
    and t: "file_type_of E (filename m) = Inr t"
  shows "os_path_basename (filename m) = []"
    and "os_path_join d (os_path_basename (filename m)) =
           (if d = [] \<or> last d = CHR ''/'' then d else d @ ''/'')"
    and "\<exists>e. logs (snd (extract_zip_entry E d False m w)) =
           logs w @
           [(INFO, Found_file (filename m) (file_size m) t),
            (ERROR, Error_extracting (filename m) e)]"
    and "files (snd (extract_zip_entry E d lo m w)) = files w"
    and "fst (extract_zip_entry E d lo m w) = None"
proof -
  show b: "os_path_basename (filename m) = []"
    using assms(1,2) by (rule basename_trailing_sep)
  show "os_path_join d (os_path_basename (filename m)) =
           (if d = [] \<or> last d = CHR ''/'' then d else d @ ''/'')"
    by (simp only: b join_empty)
  have np: "\<not> proper_segment (os_path_basename (filename m))"
    by (simp add: b proper_segment_def)
  have "os_path_basename (os_path_join d (os_path_basename (filename m))) = []"
    by (simp add: b basename_join)
  then have "\<not> proper_segment
      (os_path_basename (os_path_join d (os_path_basename (filename m))))"
    by (simp add: proper_segment_def)
  then obtain e where
    "fst (zip_copy_member E (os_path_join d (os_path_basename (filename m))) m w) = Some e"
    using zip_copy_member_improper_fails by blast
  then have "logs (snd (extract_zip_entry E d False m w)) =
           logs w @
           [(INFO, Found_file (filename m) (file_size m) t),
            (ERROR, Error_extracting (filename m) e)]"
    by (simp add: extract_zip_entry_logs [OF t])
  then show "\<exists>e. logs (snd (extract_zip_entry E d False m w)) =
           logs w @
           [(INFO, Found_file (filename m) (file_size m) t),
            (ERROR, Error_extracting (filename m) e)]"
    by blast
  show "files (snd (extract_zip_entry E d lo m w)) = files w"
    using np by (rule extract_zip_entry_unchanged)
  show "fst (extract_zip_entry E d lo m w) = None"
    using t by (rule extract_zip_entry_returns)
qed

text \<open>
  C6. For an archive in which the media type of every member name can be looked up, the
  announced entries are the members of the archive, one for one (\<open>extract_zip_names\<close>), and a
  list-only run changes no file (\<open>extract_zip_list_only\<close>). But \<^verbatim>\<open>guess_type\<close> raises
  \<^verbatim>\<open>ValueError\<close> on a name such as \<^verbatim>\<open>a://[x\<close>, and line 30 calls it outside the
  inner \<^verbatim>\<open>try\<close>: the exception ends the loop. The archive \<^verbatim>\<open>odd.zip\<close> declares three
  members; the listing pass announces the first one only, logs
  \<^verbatim>\<open>An error occurred while processing\<close> and returns \<open>False\<close>. \<^verbatim>\<open>extract_ole\<close> makes
  the same call inside its \<^verbatim>\<open>try\<close> (line 73): there a stream of that name costs one
  error record and the loop goes on.
\<close>

theorem zip_listing_aborts:
  "ZipFile example_env ''odd.zip'' = Inr odd_members \<and>
   map filename odd_members = [''first.txt'', ''a://[x'', ''last.txt''] \<and>
   extract_zip example_env ''odd.zip'' ''out'' True empty_world =
     (False,
      \<lparr>files = Map.empty,
       logs = [(INFO, Processing_zip ''odd.zip''),
               (INFO, Found_file ''first.txt'' 1 ''application/octet-stream''),
               (ERROR, Error_processing ''odd.zip'' (ValueError ''Invalid IPv6 URL''))]\<rparr>) \<and>
   listing (logs (snd (extract_zip example_env ''odd.zip'' ''out'' True empty_world))) =
     [(''first.txt'', 1, ''application/octet-stream'')] \<and>
   extract_ole_loop example_env ''out'' True
     \<lparr>listdir = Inr [[''a:'', [], ''[x''], [''Plain'']], openstream = (\<lambda>p. Inr [7])\<rparr>
     [[''a:'', [], ''[x''], [''Plain'']] empty_world =
     \<lparr>files = Map.empty,
      logs = [(ERROR, Error_extracting_stream ''a://[x'' (ValueError ''Invalid IPv6 URL'')),
              (INFO, Found_stream ''Plain'' 1 ''application/octet-stream'')]\<rparr>"
proof -
  have r: "extract_zip example_env ''odd.zip'' ''out'' True empty_world =
     (False,
      \<lparr>files = Map.empty,
       logs = [(INFO, Processing_zip ''odd.zip''),
               (INFO, Found_file ''first.txt'' 1 ''application/octet-stream''),
               (ERROR, Error_processing ''odd.zip'' (ValueError ''Invalid IPv6 URL''))]\<rparr>)"
    by (simp add: run_defs odd_members_def)
  have o: "extract_ole_loop example_env ''out'' True
     \<lparr>listdir = Inr [[''a:'', [], ''[x''], [''Plain'']], openstream = (\<lambda>p. Inr [7])\<rparr>
     [[''a:'', [], ''[x''], [''Plain'']] empty_world =
     \<lparr>files = Map.empty,
      logs = [(ERROR, Error_extracting_stream ''a://[x'' (ValueError ''Invalid IPv6 URL'')),
              (INFO, Found_stream ''Plain'' 1 ''application/octet-stream'')]\<rparr>"
    by (simp add: run_defs)
  have z: "ZipFile example_env ''odd.zip'' = Inr odd_members"
    by (simp add: example_env_def)
  have n: "map filename odd_members = [''first.txt'', ''a://[x'', ''last.txt'']"
    by (simp add: odd_members_def)
  have l: "listing (logs (snd (extract_zip example_env ''odd.zip'' ''out'' True empty_world))) =
     [(''first.txt'', 1, ''application/octet-stream'')]"
    by (simp add: r listing_Cons listing_Nil)
  from z n r l o show ?thesis by simp
qed

text \<open>
  C9. A directory placeholder whose media type can be looked up behaves as the claim says
  (\<open>directory_member\<close>). But the name \<^verbatim>\<open>a://[x/\<close> ends with the separator too, and
  \<^verbatim>\<open>guess_type\<close> raises on it at line 30, outside the inner \<^verbatim>\<open>try\<close>. In the
  archive \<^verbatim>\<open>dirs.zip\<close> this placeholder comes first: it is not announced, nothing is
  logged for it but the error of the whole run, the member after it is never reached, and
  \<open>extract_zip\<close> returns \<open>False\<close>.
\<close>

theorem directory_entry_aborts:
  "ZipFile example_env ''dirs.zip'' = Inr odd_dir_members \<and>
   map filename odd_dir_members = [''a://[x/'', ''after.txt''] \<and>
   last ''a://[x/'' = CHR ''/'' \<and>
   os_path_basename ''a://[x/'' = [] \<and>
   extract_zip example_env ''dirs.zip'' ''out'' False empty_world =
     (False,
      \<lparr>files = Map.empty,
       logs = [(INFO, Processing_zip ''dirs.zip''),
               (ERROR, Error_processing ''dirs.zip'' (ValueError ''Invalid IPv6 URL''))]\<rparr>) \<and>
   listing (logs (snd (extract_zip example_env ''dirs.zip'' ''out'' False empty_world))) = []"
proof -
  have r: "extract_zip example_env ''dirs.zip'' ''out'' False empty_world =
     (False,
      \<lparr>files = Map.empty,
       logs = [(INFO, Processing_zip ''dirs.zip''),
               (ERROR, Error_processing ''dirs.zip'' (ValueError ''Invalid IPv6 URL''))]\<rparr>)"
    by (simp add: run_defs odd_dir_members_def)
  have z: "ZipFile example_env ''dirs.zip'' = Inr odd_dir_members"
    by (simp add: example_env_def)
  have n: "map filename odd_dir_members = [''a://[x/'', ''after.txt'']"
    by (simp add: odd_dir_members_def)
  have b: "os_path_basename ''a://[x/'' = []"
    by (simp add: os_path_basename_def)
  have l: "listing (logs (snd (extract_zip example_env ''dirs.zip'' ''out'' False empty_world))) =
     []"
    by (simp add: r listing_Cons listing_Nil)
  from z n b r l show ?thesis by simp
qed

subsection \<open>What the functions return\<close>








subsection \<open>Streams with an empty name\<close>

lemma extract_ole_loop_filter:
  "extract_ole_loop E d lo ole (filter (\<lambda>n. n \<noteq> []) ns) w = extract_ole_loop E d lo ole ns w"
  by (induction ns arbitrary: w) (simp_all add: extract_ole_stream_empty)

text \<open>
  C5, as the specification has it: a stream whose name has an empty component is skipped.
  The test at line 68, \<^verbatim>\<open>if stream_name:\<close>, is a test of the list of components, not
  of the components: the stream \<^verbatim>\<open>['Storage', '']\<close> of the sample file, whose second
  component is empty, is listed by a list-only run and extracted to
  \<^verbatim>\<open>out/Storage_\<close> by a full run.
\<close>

theorem empty_component_stream_listed:
  "listdir example_ole = Inr [[''Root Entry'', ''Data''], [], [''Storage'', []], [''Broken'']] \<and>
   [] \<in> set [''Storage'', []] \<and>
   (''Storage/'', 2, ''application/octet-stream'')
     \<in> set (listing (logs (snd (extract_ole example_env ''doc.ole'' ''out'' True empty_world)))) \<and>
   files (snd (extract_ole example_env ''doc.ole'' ''out'' False empty_world)) ''out/Storage_'' =
     Some [4, 5]"
  by (simp add: example_ole_list example_ole_run listing_Cons listing_Nil)
    (simp add: example_ole_def)

text \<open>
  C5, amended. The stream names that are skipped are the empty lists of components: the step
  for such a name does nothing, so a run over a directory is the run over its non-empty
  names. A name with components, empty or not, whose data can be read and whose media type
  can be looked up is listed, under the joined name and with the length of its data.
\<close>

theorem empty_name_skipped:
  "extract_ole_stream E d lo ole [] w = w \<and>
   extract_ole_loop E d lo ole (filter (\<lambda>n. n \<noteq> []) ns) w =
     extract_ole_loop E d lo ole ns w \<and>
   (n \<noteq> [] \<and> openstream ole (str_join ''/'' n) = Inr c \<and>
    file_type_of E (str_join ''/'' n) = Inr t \<longrightarrow>
      listing (logs (extract_ole_stream E d lo ole n w)) =
        listing (logs w) @ [(str_join ''/'' n, length c, t)])"
  using extract_ole_stream_listing [of n ole c E t d lo w]
  by (simp add: extract_ole_stream_empty extract_ole_loop_filter)

theorem empty_name_skipped_witness:
  "[''Storage'', []] \<noteq> [] \<and>
   openstream example_ole (str_join ''/'' [''Storage'', []]) = Inr [4, 5] \<and>
   file_type_of example_env (str_join ''/'' [''Storage'', []]) =
     Inr ''application/octet-stream'' \<and>
   listing (logs (extract_ole_stream example_env ''out'' True example_ole [''Storage'', []]
                    empty_world)) =
     [(''Storage/'', 2, ''application/octet-stream'')]"
proof -
  have o: "openstream example_ole (str_join ''/'' [''Storage'', []]) = Inr [4, 5]"
    by (simp add: example_ole_def)
  have f: "file_type_of example_env (str_join ''/'' [''Storage'', []]) =
     Inr ''application/octet-stream''"
    by (simp add: example_file_type)
  have c: "listing (logs (extract_ole_stream example_env ''out'' True example_ole
                    [''Storage'', []] empty_world)) =
     [(''Storage/'', 2, ''application/octet-stream'')]"
    using empty_name_skipped [where E = example_env and d = "''out''" and lo = True
        and ole = example_ole and n = "[''Storage'', []]" and c = "[4, 5]"
        and t = "''application/octet-stream''" and w = empty_world] o f
    by (simp add: listing_Nil)
  from o f c show ?thesis by simp
qed

subsection \<open>Streams are read before they are listed\<close>




subsection \<open>Running twice\<close>








lemma open_wb_overwrites:
  "fst (open_wb E p (w\<lparr>files := (files w)(p \<mapsto> old)\<rparr>)) = fst (open_wb E p w)"
  by (rule open_wb_fst)





subsection \<open>Which probes a run consults\<close>





















end
